theory Spec2Isabelle
  imports Main "HOL-Library.Multiset"
begin

section \<open>Values and exceptions\<close>

text \<open>
  The script works on what \<^verbatim>\<open>json.loads\<close> returns: nested Python values.  A JSON object is
  kept as the list of its bindings, looked up with \<open>map_of\<close>; a string is a list of
  bytes (its UTF-8 encoding).  Numbers are integers: a JSON number with a fraction or an
  exponent is outside this model.
\<close>

datatype json =
    JNull
  | JBool bool
  | JInt int
  | JStr string
  | JArr "json list"
  | JObj "(string \<times> json) list"

text \<open>
  An uncaught Python exception is a value.  \<open>FetchError\<close> stands for whatever the HTTP
  transport or the JSON parser raises.
\<close>

datatype py_error = KeyError | TypeError | AttributeError | IndexError | FetchError

definition and_then :: "'e + 'a \<Rightarrow> ('a \<Rightarrow> 'e + 'b) \<Rightarrow> 'e + 'b" where
  "and_then r f = (case r of Inl e \<Rightarrow> Inl e | Inr v \<Rightarrow> f v)"

subsection \<open>The Python operations the script applies to parsed values\<close>

fun starts_with :: "string \<Rightarrow> string \<Rightarrow> bool" where
  "starts_with [] s = True"
| "starts_with (p # ps) [] = False"
| "starts_with (p # ps) (c # cs) = (p = c \<and> starts_with ps cs)"

fun contains_str :: "string \<Rightarrow> string \<Rightarrow> bool" where
  "contains_str n [] = (n = [])"
| "contains_str n (c # cs) = (starts_with n (c # cs) \<or> contains_str n cs)"

text \<open>\<^verbatim>\<open>k in x\<close> for a string \<open>k\<close>: key test on a dict, substring test on a string,
  membership on a list, \<^verbatim>\<open>TypeError\<close> on anything else.\<close>

definition py_contains :: "string \<Rightarrow> json \<Rightarrow> py_error + bool" where
  "py_contains k x =
     (case x of
        JObj kvs \<Rightarrow> Inr (k \<in> set (map fst kvs))
      | JStr s \<Rightarrow> Inr (contains_str k s)
      | JArr xs \<Rightarrow> Inr (JStr k \<in> set xs)
      | _ \<Rightarrow> Inl TypeError)"

text \<open>\<^verbatim>\<open>x[k]\<close> for a string \<open>k\<close>.\<close>

definition py_getitem :: "json \<Rightarrow> string \<Rightarrow> py_error + json" where
  "py_getitem x k =
     (case x of
        JObj kvs \<Rightarrow> (case map_of kvs k of None \<Rightarrow> Inl KeyError | Some v \<Rightarrow> Inr v)
      | _ \<Rightarrow> Inl TypeError)"

text \<open>\<^verbatim>\<open>x.get(k, d)\<close>: only a dict has the method.\<close>

definition py_get :: "json \<Rightarrow> string \<Rightarrow> json \<Rightarrow> py_error + json" where
  "py_get x k d =
     (case x of
        JObj kvs \<Rightarrow> Inr (case map_of kvs k of None \<Rightarrow> d | Some v \<Rightarrow> v)
      | _ \<Rightarrow> Inl AttributeError)"

text \<open>\<^verbatim>\<open>len(x)\<close>, which the script compares with 0; a dict counts its distinct keys.\<close>

definition py_len :: "json \<Rightarrow> py_error + nat" where
  "py_len x =
     (case x of
        JArr xs \<Rightarrow> Inr (length xs)
      | JStr s \<Rightarrow> Inr (length s)
      | JObj kvs \<Rightarrow> Inr (length (remdups (map fst kvs)))
      | _ \<Rightarrow> Inl TypeError)"

text \<open>\<^verbatim>\<open>x[0]\<close>: the first element of a list, the first character of a string (its first
  byte here; the script only ever calls \<^verbatim>\<open>.get\<close> on it, which no string has); a dict
  parsed from JSON has no key \<open>0\<close>.\<close>

definition py_first :: "json \<Rightarrow> py_error + json" where
  "py_first x =
     (case x of
        JArr xs \<Rightarrow> (case xs of [] \<Rightarrow> Inl IndexError | y # _ \<Rightarrow> Inr y)
      | JStr s \<Rightarrow> (case s of [] \<Rightarrow> Inl IndexError | c # _ \<Rightarrow> Inr (JStr [c]))
      | JObj kvs \<Rightarrow> Inl KeyError
      | _ \<Rightarrow> Inl TypeError)"

text \<open>The elements a \<^verbatim>\<open>for\<close> loop over \<open>x\<close> visits.\<close>

definition py_iter :: "json \<Rightarrow> py_error + json list" where
  "py_iter x =
     (case x of
        JArr xs \<Rightarrow> Inr xs
      | JStr s \<Rightarrow> Inr (map (\<lambda>c. JStr [c]) s)
      | JObj kvs \<Rightarrow> Inr (map JStr (remdups (map fst kvs)))
      | _ \<Rightarrow> Inl TypeError)"

text \<open>Truth value of \<open>x\<close> in \<^verbatim>\<open>if x\<close> and \<^verbatim>\<open>x or 0\<close>.\<close>

definition truthy :: "json \<Rightarrow> bool" where
  "truthy x =
     (case x of
        JNull \<Rightarrow> False
      | JBool b \<Rightarrow> b
      | JInt n \<Rightarrow> n \<noteq> 0
      | JStr s \<Rightarrow> s \<noteq> []
      | JArr xs \<Rightarrow> xs \<noteq> []
      | JObj kvs \<Rightarrow> kvs \<noteq> [])"

section \<open>get\_cited\_by\<close>

text \<open>\<^verbatim>\<open>return paper.get("inline_links", {}).get("cited_by", {})\<close>\<close>

definition get_cited_by :: "json \<Rightarrow> py_error + json" where
  "get_cited_by paper =
     and_then (py_get paper ''inline_links'' (JObj []))
       (\<lambda>il. py_get il ''cited_by'' (JObj []))"

section \<open>norm\_title\<close>

text \<open>
  \<^verbatim>\<open>return re.sub('[^0-9a-z]+', "", title.lower())\<close>

  \<open>lower_chr\<close> lowers the ASCII capitals.  Python also lowers capitals beyond ASCII,
  to characters that are again beyond ASCII and that the substitution then deletes, as it
  deletes their bytes here.  Two characters are the exception, the Kelvin sign (U+212A) and
  the dotted capital I (U+0130), whose lower case holds the ASCII letters \<^verbatim>\<open>k\<close> and \<^verbatim>\<open>i\<close>:
  a title holding one of them is outside this model.  Deleting every maximal run of
  characters outside the class is deleting every character outside the class.
\<close>

definition lower_chr :: "char \<Rightarrow> char" where
  "lower_chr c =
     (let n = (of_char c :: nat) in if 65 \<le> n \<and> n \<le> 90 then char_of (n + 32) else c)"

definition str_lower :: "string \<Rightarrow> string" where
  "str_lower s = map lower_chr s"

definition in_0_9a_z :: "char \<Rightarrow> bool" where
  "in_0_9a_z c = (let n = (of_char c :: nat) in (48 \<le> n \<and> n \<le> 57) \<or> (97 \<le> n \<and> n \<le> 122))"

definition norm_title :: "string \<Rightarrow> string" where
  "norm_title title = filter in_0_9a_z (str_lower title)"


section \<open>The environment of a run\<close>

text \<open>
  What the script takes from outside is a parameter of the model: the credential
  (\<^verbatim>\<open>os.getenv\<close> gives \<^verbatim>\<open>None\<close> when the variable is unset), the search client
  (\<^verbatim>\<open>urlopen\<close>, \<^verbatim>\<open>read\<close>, \<^verbatim>\<open>decode\<close> and \<^verbatim>\<open>json.loads\<close> together: a URL is answered
  by a parsed document or by an exception, and the answer may depend on the state of the
  world, which it may change), the bibliography reader (\<^verbatim>\<open>open\<close> and \<^verbatim>\<open>pybtex\<close>), and
  Python's \<^verbatim>\<open>repr\<close> of lists and dicts.
\<close>

record 'w env =
  SERP_API_KEY :: "string option"
  urlopen_json :: "'w \<Rightarrow> string \<Rightarrow> (py_error + json) \<times> 'w"
  get_titles_from_bibtex :: "'w \<Rightarrow> string \<Rightarrow> (py_error + string list) \<times> 'w"
  py_repr :: "json \<Rightarrow> string"

text \<open>The effects of a run, in order: requests sent, lines printed, files read.\<close>

datatype event = Request string | Print string | ReadFile string

record 'w io =
  world :: 'w
  trace :: "event list"

definition fetch :: "'w env \<Rightarrow> string \<Rightarrow> 'w io \<Rightarrow> (py_error + json) \<times> 'w io" where
  "fetch env url s =
     (let (r, w) = urlopen_json env (world s) url
      in (r, \<lparr>world = w, trace = trace s @ [Request url]\<rparr>))"

definition py_print :: "string \<Rightarrow> 'w io \<Rightarrow> 'w io" where
  "py_print line s = s\<lparr>trace := trace s @ [Print line]\<rparr>"

section \<open>Formatting\<close>

fun show_nat :: "nat \<Rightarrow> string" where
  "show_nat n =
     (if n < 10 then [char_of (48 + n)] else show_nat (n div 10) @ [char_of (48 + n mod 10)])"

declare show_nat.simps [simp del]

definition show_int :: "int \<Rightarrow> string" where
  "show_int i = (if i < 0 then ''-'' @ show_nat (nat (- i)) else show_nat (nat i))"

text \<open>\<^verbatim>\<open>%s\<close>: \<^verbatim>\<open>str(x)\<close>.\<close>

definition py_str :: "'w env \<Rightarrow> json \<Rightarrow> string" where
  "py_str env x =
     (case x of
        JStr s \<Rightarrow> s
      | JInt i \<Rightarrow> show_int i
      | JNull \<Rightarrow> ''None''
      | JBool b \<Rightarrow> (if b then ''True'' else ''False'')
      | _ \<Rightarrow> py_repr env x)"

text \<open>\<^verbatim>\<open>%d\<close>: a number is required; \<^verbatim>\<open>True\<close> and \<^verbatim>\<open>False\<close> are the numbers 1 and 0.\<close>

definition py_number :: "json \<Rightarrow> py_error + int" where
  "py_number x =
     (case x of
        JInt i \<Rightarrow> Inr i
      | JBool b \<Rightarrow> Inr (if b then 1 else 0)
      | _ \<Rightarrow> Inl TypeError)"

section \<open>The search URL\<close>

text \<open>\<^verbatim>\<open>urllib.parse.urlencode\<close>, which quotes names and values with \<^verbatim>\<open>quote_plus\<close>.\<close>

definition always_safe :: "char \<Rightarrow> bool" where
  "always_safe c =
     (let n = (of_char c :: nat)
      in (65 \<le> n \<and> n \<le> 90) \<or> (97 \<le> n \<and> n \<le> 122) \<or> (48 \<le> n \<and> n \<le> 57)
         \<or> c \<in> set ''_.-~'')"

definition hex_digit :: "nat \<Rightarrow> char" where
  "hex_digit n = ''0123456789ABCDEF'' ! n"

definition quote_chr :: "char \<Rightarrow> string" where
  "quote_chr c =
     (if always_safe c then [c]
      else if c = CHR '' '' then ''+''
      else [CHR ''%'', hex_digit (of_char c div 16), hex_digit (of_char c mod 16)])"

definition quote_plus :: "string \<Rightarrow> string" where
  "quote_plus s = concat (map quote_chr s)"

fun join_amp :: "string list \<Rightarrow> string" where
  "join_amp [] = []"
| "join_amp [x] = x"
| "join_amp (x # y # ys) = x @ ''&'' @ join_amp (y # ys)"

definition urlencode :: "(string \<times> string) list \<Rightarrow> string" where
  "urlencode params = join_amp (map (\<lambda>(k, v). quote_plus k @ ''='' @ quote_plus v) params)"

definition SERP_API_URL :: string where
  "SERP_API_URL = ''https://serpapi.com/search''"

text \<open>
  \<^verbatim>\<open>api_params = {"api_key": SERP_API_KEY, "engine": "google_scholar", "q": "\"" + title + "\""}\<close>
  \<^verbatim>\<open>api_url = SERP_API_URL + "?" + urllib.parse.urlencode(api_params)\<close>

  \<^verbatim>\<open>urlencode\<close> writes a value that is not a string with \<^verbatim>\<open>str\<close>: an unset credential
  is sent as \<^verbatim>\<open>None\<close>.
\<close>

definition search_url :: "'w env \<Rightarrow> string \<Rightarrow> string" where
  "search_url env title =
     SERP_API_URL @ ''?'' @
     urlencode [(''api_key'', (case SERP_API_KEY env of None \<Rightarrow> ''None'' | Some k \<Rightarrow> k)),
                (''engine'', ''google_scholar''),
                (''q'', [CHR 0x22] @ title @ [CHR 0x22])]"

section \<open>The follow-up link\<close>

text \<open>
  \<^verbatim>\<open>re.sub("q=.*", "", s)\<close>: scanning from the left, each \<^verbatim>\<open>q=\<close> is deleted together
  with all that follows it on its line (the dot matches every character but the newline),
  and the scan resumes at the newline.
\<close>

function re_sub_q :: "string \<Rightarrow> string" where
  "re_sub_q [] = []"
| "re_sub_q (c # cs) =
     (if starts_with ''q='' (c # cs) then re_sub_q (dropWhile (\<lambda>x. x \<noteq> CHR 0x0A) (tl cs))
      else c # re_sub_q cs)"
  by pat_completeness auto
termination
proof (relation "measure length")
  fix c :: char and cs :: string
  have "length (dropWhile (\<lambda>x. x \<noteq> CHR 0x0A) (tl cs)) \<le> length (tl cs)"
    by (rule length_dropWhile_le)
  then show "(dropWhile (\<lambda>x. x \<noteq> CHR 0x0A) (tl cs), c # cs) \<in> measure length"
    by simp
qed simp_all

text \<open>
  \<^verbatim>\<open>cited_by_link = get_cited_by(first_result)["serpapi_scholar_link"]\<close>
  \<^verbatim>\<open>cited_by_link = re.sub("q=.*", "", cited_by_link) + "&api_key=" + SERP_API_KEY\<close>
\<close>

definition rewrite_link :: "'w env \<Rightarrow> json \<Rightarrow> py_error + string" where
  "rewrite_link env cited_by =
     and_then (py_getitem cited_by ''serpapi_scholar_link'')
       (\<lambda>cited_by_link.
          case cited_by_link of
            JStr s \<Rightarrow>
              (case SERP_API_KEY env of
                 None \<Rightarrow> Inl TypeError
               | Some k \<Rightarrow> Inr (re_sub_q s @ ''&api_key='' @ k))
          | _ \<Rightarrow> Inl TypeError)"

text \<open>
  \<^verbatim>\<open>if "organic_results" in res and len(res["organic_results"]) > 0:\<close>
  \<^verbatim>\<open>    first_result = res["organic_results"][0]\<close>
  \<^verbatim>\<open>    if get_cited_by(first_result):\<close>

  The result is the cited-by section to follow, or \<open>None\<close> when the title is skipped.
\<close>

definition first_cited_by :: "json \<Rightarrow> py_error + json option" where
  "first_cited_by res =
     and_then (py_contains ''organic_results'' res)
       (\<lambda>present.
          if \<not> present then Inr None
          else and_then (py_getitem res ''organic_results'')
            (\<lambda>results. and_then (py_len results)
               (\<lambda>n. if \<not> n > 0 then Inr None
                    else and_then (py_first results)
                      (\<lambda>first_result. and_then (get_cited_by first_result)
                         (\<lambda>cited_by. if truthy cited_by then Inr (Some cited_by) else Inr None)))))"

section \<open>The aggregate map\<close>

text \<open>
  \<^verbatim>\<open>all_citers\<close> maps a link to a pair of a count and a paper.  A Python dict keeps its keys
  in the order of their first insertion, which is the order \<^verbatim>\<open>list(all_citers.items())\<close>
  hands to the sort: the map is the list of its entries in that order.  Lists and dicts
  cannot be keys; \<^verbatim>\<open>True\<close> and \<^verbatim>\<open>1\<close> are the same key, as are \<^verbatim>\<open>False\<close> and \<^verbatim>\<open>0\<close>.
\<close>

type_synonym citers = "(json \<times> nat \<times> json) list"

definition hashable :: "json \<Rightarrow> bool" where
  "hashable x = (case x of JArr xs \<Rightarrow> False | JObj kvs \<Rightarrow> False | _ \<Rightarrow> True)"

definition dict_key :: "json \<Rightarrow> json" where
  "dict_key x = (case x of JBool b \<Rightarrow> JInt (if b then 1 else 0) | _ \<Rightarrow> x)"

definition key_eq :: "json \<Rightarrow> json \<Rightarrow> bool" where
  "key_eq a b = (dict_key a = dict_key b)"

text \<open>\<^verbatim>\<open>all_citers[paper_link] = (all_citers[paper_link][0] + 1, res2)\<close>, the count of an
  unseen key being 0.\<close>

fun bump :: "json \<Rightarrow> json \<Rightarrow> citers \<Rightarrow> citers" where
  "bump paper_link res2 [] = [(paper_link, 1, res2)]"
| "bump paper_link res2 ((k, cnt, paper) # rest) =
     (if key_eq k paper_link then (k, cnt + 1, res2) # rest
      else (k, cnt, paper) # bump paper_link res2 rest)"

text \<open>
  \<^verbatim>\<open>if "link" in res2: paper_link = res2["link"]\<close>
  \<^verbatim>\<open>else: paper_link = "No link found (id: %s)" % (res2["result_id"])\<close>
\<close>

definition paper_link :: "'w env \<Rightarrow> json \<Rightarrow> py_error + json" where
  "paper_link env res2 =
     and_then (py_contains ''link'' res2)
       (\<lambda>has_link.
          if has_link then py_getitem res2 ''link''
          else and_then (py_getitem res2 ''result_id'')
            (\<lambda>result_id. Inr (JStr (''No link found (id: '' @ py_str env result_id @ '')''))))"

text \<open>The body of \<^verbatim>\<open>for res2 in cite_res["organic_results"]\<close>, over the entries visited.\<close>

fun add_results :: "'w env \<Rightarrow> json list \<Rightarrow> citers \<Rightarrow> py_error + citers" where
  "add_results env [] all_citers = Inr all_citers"
| "add_results env (res2 # rest) all_citers =
     (case paper_link env res2 of
        Inl e \<Rightarrow> Inl e
      | Inr k \<Rightarrow>
          if hashable k then add_results env rest (bump k res2 all_citers)
          else Inl TypeError)"

text \<open>
  \<^verbatim>\<open>if "organic_results" in cite_res:\<close>
  \<^verbatim>\<open>    for res2 in cite_res["organic_results"]:\<close>
\<close>

definition cite_entries :: "json \<Rightarrow> py_error + json list" where
  "cite_entries cite_res =
     and_then (py_contains ''organic_results'' cite_res)
       (\<lambda>present.
          if \<not> present then Inr []
          else and_then (py_getitem cite_res ''organic_results'') py_iter)"

definition add_citers :: "'w env \<Rightarrow> json \<Rightarrow> citers \<Rightarrow> py_error + citers" where
  "add_citers env cite_res all_citers =
     and_then (cite_entries cite_res) (\<lambda>entries. add_results env entries all_citers)"

section \<open>find\_citers\_from\_titles\<close>

text \<open>The body of \<^verbatim>\<open>for title in titles[:100000]\<close>.  An exception ends the run; the
  effects that came before it stay.\<close>

definition title_step ::
  "'w env \<Rightarrow> string \<Rightarrow> citers \<Rightarrow> 'w io \<Rightarrow> (py_error + citers) \<times> 'w io" where
  "title_step env title all_citers s =
     (let (r, s1) = fetch env (search_url env title) s
      in case r of
           Inl e \<Rightarrow> (Inl e, s1)
         | Inr res \<Rightarrow>
             (case first_cited_by res of
                Inl e \<Rightarrow> (Inl e, s1)
              | Inr None \<Rightarrow> (Inr all_citers, s1)
              | Inr (Some cited_by) \<Rightarrow>
                  (case rewrite_link env cited_by of
                     Inl e \<Rightarrow> (Inl e, s1)
                   | Inr cited_by_link \<Rightarrow>
                       (let (r2, s2) = fetch env cited_by_link (py_print cited_by_link s1)
                        in case r2 of
                             Inl e \<Rightarrow> (Inl e, s2)
                           | Inr cite_res \<Rightarrow> (add_citers env cite_res all_citers, s2)))))"

fun titles_loop ::
  "'w env \<Rightarrow> string list \<Rightarrow> citers \<Rightarrow> 'w io \<Rightarrow> (py_error + citers) \<times> 'w io" where
  "titles_loop env [] all_citers s = (Inr all_citers, s)"
| "titles_loop env (title # rest) all_citers s =
     (case title_step env title all_citers s of
        (Inl e, s') \<Rightarrow> (Inl e, s')
      | (Inr all_citers', s') \<Rightarrow> titles_loop env rest all_citers' s')"

text \<open>
  \<^verbatim>\<open>get_cited_by(x[1][1]).get("total") or 0\<close>, as the number that the sort key adds and
  that \<^verbatim>\<open>%d\<close> prints.
\<close>

definition total_citations :: "json \<Rightarrow> py_error + int" where
  "total_citations paper =
     and_then (get_cited_by paper)
       (\<lambda>cited_by. and_then (py_get cited_by ''total'' JNull)
          (\<lambda>total. py_number (if truthy total then total else JInt 0)))"

text \<open>
  \<^verbatim>\<open>key=lambda x: (1e6 * x[1][0] + (get_cited_by(x[1][1]).get("total") or 0))\<close>

  The source computes the key in double precision, \<^verbatim>\<open>1e6\<close> being a float.  Product and
  sum are integers, and a double holds every integer of magnitude up to \<open>2^53\<close> exactly:
  below that magnitude the key is the integer computed here.  Counts and totals beyond it
  (a count of some \<open>9 * 10^9\<close> hits) are outside this model.
\<close>

definition citer_key :: "json \<times> nat \<times> json \<Rightarrow> py_error + int" where
  "citer_key x =
     (case x of (link, cnt, paper) \<Rightarrow>
        and_then (total_citations paper) (\<lambda>total. Inr (1000000 * int cnt + total)))"

definition key_value :: "json \<times> nat \<times> json \<Rightarrow> int" where
  "key_value x = (case citer_key x of Inr k \<Rightarrow> k | Inl e \<Rightarrow> 0)"

fun first_error :: "('e + 'a) list \<Rightarrow> 'e option" where
  "first_error [] = None"
| "first_error (Inl e # rs) = Some e"
| "first_error (Inr v # rs) = first_error rs"

text \<open>
  \<^verbatim>\<open>all_citers_list.sort(key=..., reverse=True)\<close>: the keys are computed first, for every
  entry in turn; the sort is stable, also when reversed.
\<close>

definition rank :: "citers \<Rightarrow> py_error + citers" where
  "rank all_citers_list =
     (case first_error (map citer_key all_citers_list) of
        Some e \<Rightarrow> Inl e
      | None \<Rightarrow> Inr (sort_key (\<lambda>x. - key_value x) all_citers_list))"

definition find_citers_from_titles ::
  "'w env \<Rightarrow> string list \<Rightarrow> 'w io \<Rightarrow> (py_error + citers) \<times> 'w io" where
  "find_citers_from_titles env titles s =
     (case titles_loop env (take 100000 titles) [] s of
        (Inl e, s') \<Rightarrow> (Inl e, s')
      | (Inr all_citers, s') \<Rightarrow> (rank all_citers, s'))"

section \<open>The report and the command line\<close>

definition header :: string where
  "header = ''Num bib articles cited'' @ [CHR 0x09] @ ''Num citations received'' @ [CHR 0x09]
            @ ''Link'' @ [CHR 0x09] @ ''Title''"

text \<open>\<^verbatim>\<open>"%d\t%d\t%s\t%s" % (count, get_cited_by(paper_info).get("total") or 0, link, title)\<close>\<close>

definition format_row :: "'w env \<Rightarrow> json \<Rightarrow> nat \<Rightarrow> json \<Rightarrow> string \<Rightarrow> py_error + string" where
  "format_row env link cnt paper_info title =
     and_then (total_citations paper_info)
       (\<lambda>total. Inr (show_nat cnt @ [CHR 0x09] @ show_int total @ [CHR 0x09]
                     @ py_str env link @ [CHR 0x09] @ title))"

text \<open>
  \<^verbatim>\<open>title = paper_info.get("title", "")\<close>: any value; \<^verbatim>\<open>title.lower()\<close> needs a string.
\<close>

definition paper_title :: "json \<Rightarrow> py_error + string" where
  "paper_title paper_info =
     and_then (py_get paper_info ''title'' (JStr []))
       (\<lambda>title. case title of JStr t \<Rightarrow> Inr t | _ \<Rightarrow> Inl AttributeError)"

text \<open>
  \<^verbatim>\<open>for (link, (count, paper_info)) in all_citers_list:\<close>
  \<^verbatim>\<open>    title = paper_info.get("title", "")\<close>
  \<^verbatim>\<open>    if norm_title(title) not in norm_titles: print(...)\<close>
\<close>

fun report :: "'w env \<Rightarrow> string set \<Rightarrow> citers \<Rightarrow> 'w io \<Rightarrow> (py_error + unit) \<times> 'w io" where
  "report env norm_titles [] s = (Inr (), s)"
| "report env norm_titles ((link, cnt, paper_info) # rest) s =
     (case paper_title paper_info of
        Inl e \<Rightarrow> (Inl e, s)
      | Inr title \<Rightarrow>
          if norm_title title \<notin> norm_titles then
            (case format_row env link cnt paper_info title of
               Inl e \<Rightarrow> (Inl e, s)
             | Inr line \<Rightarrow> report env norm_titles rest (py_print line s))
          else report env norm_titles rest s)"

text \<open>How the process ends: \<^verbatim>\<open>sys.exit()\<close> and the end of the script give status 0, an
  uncaught exception a traceback and status 1.\<close>

datatype ending = Exit nat | Traceback py_error

definition read_titles :: "'w env \<Rightarrow> string \<Rightarrow> 'w io \<Rightarrow> (py_error + string list) \<times> 'w io" where
  "read_titles env filename s =
     (let (r, w) = get_titles_from_bibtex env (world s) filename
      in (r, \<lparr>world = w, trace = trace s @ [ReadFile filename]\<rparr>))"

text \<open>
  The script's main block.  \<^verbatim>\<open>sys.argv\<close> is the program's name followed by the arguments
  of the command line.
\<close>

definition main :: "'w env \<Rightarrow> string \<Rightarrow> string list \<Rightarrow> 'w io \<Rightarrow> ending \<times> 'w io" where
  "main env prog args s =
     (let argv = prog # args
      in if length argv \<noteq> 2 then
           (Exit 0, py_print (''Usage:  '' @ prog @ '' <bibtex_file>'') s)
         else
           (let (r, s1) = read_titles env (argv ! 1) s
            in case r of
                 Inl e \<Rightarrow> (Traceback e, s1)
               | Inr titles \<Rightarrow>
                   (let norm_titles = set (map norm_title titles);
                        (r2, s2) = find_citers_from_titles env titles s1
                    in case r2 of
                         Inl e \<Rightarrow> (Traceback e, s2)
                       | Inr all_citers_list \<Rightarrow>
                           (case report env norm_titles all_citers_list (py_print header s2) of
                              (Inl e, s3) \<Rightarrow> (Traceback e, s3)
                            | (Inr u, s3) \<Rightarrow> (Exit 0, s3)))))"

section \<open>Notions the properties are stated with\<close>

text \<open>The pair an entry is ranked by: its hit count and its total-citation count, 0 when
  the paper has none.\<close>

definition hits_total :: "json \<times> nat \<times> json \<Rightarrow> nat \<times> int" where
  "hits_total x =
     (case x of (link, cnt, paper) \<Rightarrow>
        (cnt, (case total_citations paper of Inr t \<Rightarrow> t | Inl e \<Rightarrow> 0)))"


text \<open>The report as the specification words it: the title an entry is compared on (the
  empty string when the paper has none), the line printed for an entry, and the lines for
  the entries whose normalized title is not among the normalized bibliography titles.\<close>

definition entry_title :: "json \<times> nat \<times> json \<Rightarrow> string" where
  "entry_title x = (case paper_title (snd (snd x)) of Inr t \<Rightarrow> t | Inl e \<Rightarrow> [])"

definition report_row :: "'w env \<Rightarrow> json \<times> nat \<times> json \<Rightarrow> string" where
  "report_row env x =
     show_nat (fst (hits_total x)) @ [CHR 0x09] @ show_int (snd (hits_total x)) @ [CHR 0x09]
     @ py_str env (fst x) @ [CHR 0x09] @ entry_title x"

definition report_rows :: "'w env \<Rightarrow> string list \<Rightarrow> citers \<Rightarrow> string list" where
  "report_rows env titles ranked =
     map (report_row env)
       (filter (\<lambda>x. norm_title (entry_title x) \<notin> set (map norm_title titles)) ranked)"

text \<open>The keys under which the entries of a follow-up answer are counted, and the answers
  that list no key twice.\<close>

fun link_keys :: "'w env \<Rightarrow> json list \<Rightarrow> json list" where
  "link_keys env [] = []"
| "link_keys env (res2 # rest) =
     (case paper_link env res2 of
        Inl e \<Rightarrow> link_keys env rest
      | Inr k \<Rightarrow> dict_key k # link_keys env rest)"

definition no_repeated_citer :: "'w env \<Rightarrow> json \<Rightarrow> bool" where
  "no_repeated_citer env cite_res =
     (case cite_entries cite_res of
        Inl e \<Rightarrow> True
      | Inr entries \<Rightarrow> distinct (link_keys env entries))"

definition answers_without_repeats :: "'w env \<Rightarrow> bool" where
  "answers_without_repeats env =
     (\<forall>w url d w'. urlopen_json env w url = (Inr d, w') \<longrightarrow> no_repeated_citer env d)"

section \<open>Environments for concrete runs\<close>

text \<open>No credential, no network, no file; the state of the world is a count of the calls
  made.\<close>

definition offline_env :: "nat env" where
  "offline_env =
     \<lparr>SERP_API_KEY = None,
      urlopen_json = (\<lambda>w url. (Inl FetchError, w + 1)),
      get_titles_from_bibtex = (\<lambda>w filename. (Inl FetchError, w + 1)),
      py_repr = (\<lambda>x. ''[...]'')\<rparr>"

text \<open>A search client that answers from a table of pages, with the credential \<^verbatim>\<open>KEY\<close>.\<close>

definition canned_env :: "(string \<times> json) list \<Rightarrow> nat env" where
  "canned_env pages =
     \<lparr>SERP_API_KEY = Some ''KEY'',
      urlopen_json =
        (\<lambda>w url. (case map_of pages url of None \<Rightarrow> Inl FetchError | Some d \<Rightarrow> Inr d, w + 1)),
      get_titles_from_bibtex = (\<lambda>w filename. (Inl FetchError, w + 1)),
      py_repr = (\<lambda>x. ''[...]'')\<rparr>"

text \<open>The search URL of the title \<^verbatim>\<open>T\<close> under that credential.\<close>

definition search_T :: string where
  "search_T = ''https://serpapi.com/search?api_key=KEY&engine=google_scholar&q=%22T%22''"

text \<open>A search answer whose first result has the cited-by link \<open>l\<close>, and a follow-up
  answer listing the given citing entries.\<close>

definition first_page :: "string \<Rightarrow> json" where
  "first_page l =
     JObj [(''organic_results'',
            JArr [JObj [(''title'', JStr ''T''),
                        (''inline_links'',
                         JObj [(''cited_by'',
                                JObj [(''total'', JInt 2), (''serpapi_scholar_link'', JStr l)])])]])]"

definition citing_page :: "json list \<Rightarrow> json" where
  "citing_page entries = JObj [(''search_metadata'', JObj []), (''organic_results'', JArr entries)]"

text \<open>Pages for the title \<^verbatim>\<open>T\<close> on which two citing papers have the same link, that of the
  volume both appear in.\<close>

definition shared_link_pages :: "(string \<times> json) list" where
  "shared_link_pages =
     [(search_T, first_page ''https://serpapi.com/search.json?cites=1&hl=en''),
      (''https://serpapi.com/search.json?cites=1&hl=en&api_key=KEY'',
       citing_page
         [JObj [(''title'', JStr ''Paper A''), (''link'', JStr ''https://example.org/proceedings.pdf'')],
          JObj [(''title'', JStr ''Paper B''), (''link'', JStr ''https://example.org/proceedings.pdf'')]])]"

section \<open>Properties of the normalizer\<close>








section \<open>get\_cited\_by on paper records\<close>




section \<open>The command line\<close>

text \<open>
  C8.  Called with a number of arguments other than one, the program prints the usage
  line and exits with status 0; that line is its only effect: no file is read and no
  request is sent.
\<close>

theorem C8_usage_exit_zero:
  "length args \<noteq> 1 \<Longrightarrow>
   main env prog args s
   = (Exit 0, s\<lparr>trace := trace s @ [Print (''Usage:  '' @ prog @ '' <bibtex_file>'')]\<rparr>)"
  by (simp add: main_def py_print_def)

theorem C8_usage_exit_zero_witness:
  "length ([] :: string list) \<noteq> 1
   \<and> main offline_env ''bib_seer.py'' [] \<lparr>world = 0, trace = []\<rparr>
     = (Exit 0, \<lparr>world = 0, trace = [Print ''Usage:  bib_seer.py <bibtex_file>'']\<rparr>)"
  using C8_usage_exit_zero [of "[]" offline_env "''bib_seer.py''" "\<lparr>world = 0, trace = []\<rparr>"]
  by simp

section \<open>The bound on the titles processed\<close>

text \<open>
  C9.  A run on a list of titles is the run on its first 100,000 titles: the same result,
  the same requests and printed lines, the same final state of the world.  A title at
  index 100,000 or beyond is never looked at.
\<close>

theorem C9_first_100000_titles:
  "find_citers_from_titles env titles s = find_citers_from_titles env (take 100000 titles) s"
  by (simp add: find_citers_from_titles_def)

section \<open>Ranking\<close>


lemma rank_Inr: "rank xs = Inr ys \<Longrightarrow> ys = sort_key (\<lambda>x. - key_value x) xs"
  by (auto simp: rank_def split: option.splits)









section \<open>One title of the loop\<close>

lemma search_url_T: "search_url (canned_env pages) ''T'' = ''https://serpapi.com/search?api_key=KEY&engine=google_scholar&q=%22T%22''"
  by (simp add: search_url_def canned_env_def SERP_API_URL_def urlencode_def quote_plus_def quote_chr_def always_safe_def hex_digit_def)

lemma search_url_canned: "search_url (canned_env pages) ''T'' = search_T"
  by (simp only: search_url_T search_T_def)

lemma key_in_iff: "k \<in> fst ` set kvs \<longleftrightarrow> map_of kvs k \<noteq> None"
  by (simp add: map_of_eq_None_iff)

lemma fetch_eq:
  "urlopen_json env (world s) url = (r, w) \<Longrightarrow>
   fetch env url s = (r, \<lparr>world = w, trace = trace s @ [Request url]\<rparr>)"
  by (simp add: fetch_def)

lemma title_step_skip:
  assumes "urlopen_json env (world s) (search_url env title) = (Inr res, w1)"
    and "first_cited_by res = Inr None"
  shows "title_step env title acc s
         = (Inr acc, \<lparr>world = w1, trace = trace s @ [Request (search_url env title)]\<rparr>)"
  using assms by (simp add: title_step_def fetch_eq)

lemma title_step_follow:
  assumes "urlopen_json env (world s) (search_url env title) = (Inr res, w1)"
    and "first_cited_by res = Inr (Some cb)"
    and "rewrite_link env cb = Inr link"
    and "urlopen_json env w1 link = (r2, w2)"
  shows "title_step env title acc s
         = ((case r2 of Inl e \<Rightarrow> Inl e | Inr cite_res \<Rightarrow> add_citers env cite_res acc),
            \<lparr>world = w2,
             trace = trace s @ [Request (search_url env title), Print link, Request link]\<rparr>)"
  using assms by (simp add: title_step_def fetch_eq py_print_def split: sum.splits)

lemma first_cited_by_absent:
  "map_of kvs ''organic_results'' = None \<Longrightarrow> first_cited_by (JObj kvs) = Inr None"
  by (simp add: first_cited_by_def py_contains_def and_then_def key_in_iff)



lemma first_cited_by_first_page:
  "first_cited_by (first_page l) = Inr (Some (JObj [(''total'', JInt 2), (''serpapi_scholar_link'', JStr l)]))"
  by (simp add: first_page_def first_cited_by_def py_contains_def py_getitem_def py_len_def py_first_def
      get_cited_by_def py_get_def truthy_def and_then_def)

lemma cite_entries_absent:
  "map_of kvs ''organic_results'' = None \<Longrightarrow> cite_entries (JObj kvs) = Inr []"
  by (simp add: cite_entries_def py_contains_def and_then_def key_in_iff)

lemma add_citers_absent:
  "map_of kvs ''organic_results'' = None \<Longrightarrow> add_citers env (JObj kvs) acc = Inr acc"
  by (simp add: add_citers_def cite_entries_absent and_then_def)





section \<open>Responses without organic results\<close>

text \<open>
  C7.  When the answer to a title's search is a JSON object with no \<^verbatim>\<open>organic_results\<close>
  key, or when that answer leads to a follow-up request whose answer is such an object,
  the title's pass through the loop raises nothing and leaves the aggregate map as it was.
\<close>

theorem C7_no_organic_results_skips:
  assumes absent: "map_of kvs ''organic_results'' = None"
    and first: "urlopen_json env (world s) (search_url env title) = (Inr res, w1)"
    and which: "res = JObj kvs
       \<or> (\<exists>cb link w2. first_cited_by res = Inr (Some cb) \<and> rewrite_link env cb = Inr link
             \<and> urlopen_json env w1 link = (Inr (JObj kvs), w2))"
  shows "fst (title_step env title all_citers s) = Inr all_citers"
  using which
proof
  assume "res = JObj kvs"
  with absent first show ?thesis
    by (simp add: title_step_skip first_cited_by_absent)
next
  assume "\<exists>cb link w2. first_cited_by res = Inr (Some cb) \<and> rewrite_link env cb = Inr link
             \<and> urlopen_json env w1 link = (Inr (JObj kvs), w2)"
  then obtain cb link w2 where "first_cited_by res = Inr (Some cb)" "rewrite_link env cb = Inr link"
    "urlopen_json env w1 link = (Inr (JObj kvs), w2)" by blast
  with first absent show ?thesis
    by (simp add: title_step_follow add_citers_absent)
qed

theorem C7_no_organic_results_skips_witness:
  "fst (title_step (canned_env [(search_T, JObj [(''error'', JStr ''no results'')])])
          ''T'' [(JStr ''a.com'', 1, JObj [])] \<lparr>world = 0, trace = []\<rparr>)
   = Inr [(JStr ''a.com'', 1, JObj [])]
   \<and> fst (title_step
          (canned_env [(search_T, first_page ''https://serpapi.com/search.json?cites=1''),
                       (''https://serpapi.com/search.json?cites=1&api_key=KEY'',
                        JObj [(''error'', JStr ''no results'')])])
          ''T'' [(JStr ''a.com'', 1, JObj [])] \<lparr>world = 0, trace = []\<rparr>)
   = Inr [(JStr ''a.com'', 1, JObj [])]"
proof -
  let ?none = "[(''error'', JStr ''no results'')]"
  let ?s = "\<lparr>world = 0 :: nat, trace = []\<rparr>"
  let ?l = "''https://serpapi.com/search.json?cites=1''"
  let ?l' = "''https://serpapi.com/search.json?cites=1&api_key=KEY''"
  let ?env1 = "canned_env [(search_T, JObj ?none)]"
  let ?env2 = "canned_env [(search_T, first_page ?l), (?l', JObj ?none)]"
  have absent: "map_of ?none ''organic_results'' = None" by simp
  have a1: "urlopen_json ?env1 (world ?s) (search_url ?env1 ''T'') = (Inr (JObj ?none), 1)"
    by (simp add: search_url_canned) (simp add: canned_env_def)
  have a2: "urlopen_json ?env2 (world ?s) (search_url ?env2 ''T'') = (Inr (first_page ?l), 1)"
    by (simp add: search_url_canned) (simp add: canned_env_def)
  have b2: "first_cited_by (first_page ?l)
              = Inr (Some (JObj [(''total'', JInt 2), (''serpapi_scholar_link'', JStr ?l)]))
            \<and> rewrite_link ?env2 (JObj [(''total'', JInt 2), (''serpapi_scholar_link'', JStr ?l)])
              = Inr ?l'
            \<and> urlopen_json ?env2 1 ?l' = (Inr (JObj ?none), 2)"
    by (simp add: first_cited_by_first_page)
       (simp add: rewrite_link_def py_getitem_def and_then_def canned_env_def search_T_def)
  show ?thesis
    using C7_no_organic_results_skips [OF absent a1, of "[(JStr ''a.com'', 1, JObj [])]"]
      C7_no_organic_results_skips [OF absent a2, of "[(JStr ''a.com'', 1, JObj [])]"] b2
    by blast
qed

section \<open>The follow-up link\<close>







section \<open>Missing fields\<close>




section \<open>The report\<close>

text \<open>
  C4.  Given ranked entries whose papers have a string for a title (or no title) and a
  number for a total, the report emitter prints, in rank order, one line for every entry
  whose normalized title is not in the set of normalized bibliography titles, and no line
  for the others.  A line is the hit count, the total-citation count, the link and the
  title, separated by tabs.  The comparison is on normalized titles, so an entry is dropped
  also when its title differs from the bibliography's in case or punctuation.
\<close>

theorem C4_report_drops_bibliography_titles:
  assumes "\<forall>x \<in> set ranked. \<exists>t n. paper_title (snd (snd x)) = Inr t
                                   \<and> total_citations (snd (snd x)) = Inr n"
  shows "report env (set (map norm_title titles)) ranked s
         = (Inr (), s\<lparr>trace := trace s @ map Print (report_rows env titles ranked)\<rparr>)"
  using assms
proof (induction ranked arbitrary: s)
  case Nil
  show ?case by (simp add: report_rows_def)
next
  case (Cons x ranked)
  obtain link cnt paper where x: "x = (link, cnt, paper)" by (cases x)
  from Cons.prems x obtain t n where
    t: "paper_title paper = Inr t" and n: "total_citations paper = Inr n"
    by auto
  from Cons.prems have rest: "\<forall>x \<in> set ranked. \<exists>t n. paper_title (snd (snd x)) = Inr t
                                   \<and> total_citations (snd (snd x)) = Inr n"
    by simp
  have row: "format_row env link cnt paper t = Inr (report_row env x)"
    by (simp add: format_row_def report_row_def hits_total_def entry_title_def and_then_def x t n)
  have title: "entry_title x = t"
    by (simp add: entry_title_def x t)
  show ?case
  proof (cases "norm_title t \<in> set (map norm_title titles)")
    case True
    then show ?thesis
      using Cons.IH [OF rest, of s] title
      by (simp add: x t report_rows_def)
  next
    case False
    then show ?thesis
      using Cons.IH [OF rest, of "py_print (report_row env x) s"] title row
      by (simp add: x t report_rows_def py_print_def)
  qed
qed

theorem C4_report_drops_bibliography_titles_witness:
  "report offline_env (set (map norm_title [''Attention Is All You Need'']))
     [(JStr ''b.com'', 1,
       JObj [(''title'', JStr ''Bar''),
             (''inline_links'', JObj [(''cited_by'', JObj [(''total'', JInt 5)])])]),
      (JStr ''c.com'', 1, JObj [(''title'', JStr ''attention is all you need.'')])]
     \<lparr>world = 0, trace = []\<rparr>
   = (Inr (), \<lparr>world = 0, trace = [Print (''1'' @ [CHR 0x09] @ ''5'' @ [CHR 0x09] @ ''b.com'' @ [CHR 0x09] @ ''Bar'')]\<rparr>)"
proof -
  let ?ranked = "[(JStr ''b.com'', 1 :: nat,
       JObj [(''title'', JStr ''Bar''),
             (''inline_links'', JObj [(''cited_by'', JObj [(''total'', JInt 5)])])]),
      (JStr ''c.com'', 1, JObj [(''title'', JStr ''attention is all you need.'')])]"
  have h: "\<forall>x \<in> set ?ranked. \<exists>t n. paper_title (snd (snd x)) = Inr t
                                   \<and> total_citations (snd (snd x)) = Inr n"
    by (simp add: paper_title_def total_citations_def get_cited_by_def py_get_def and_then_def
          truthy_def py_number_def)
  have rows: "report_rows offline_env [''Attention Is All You Need''] ?ranked
              = [''1'' @ [CHR 0x09] @ ''5'' @ [CHR 0x09] @ ''b.com'' @ [CHR 0x09] @ ''Bar'']"
    by code_simp
  have rhs: "(Inr () :: py_error + unit,
              \<lparr>world = 0 :: nat, trace = []\<rparr>
                \<lparr>trace := trace \<lparr>world = 0 :: nat, trace = []\<rparr>
                   @ map Print (report_rows offline_env [''Attention Is All You Need''] ?ranked)\<rparr>)
             = (Inr (), \<lparr>world = 0, trace = [Print (''1'' @ [CHR 0x09] @ ''5'' @ [CHR 0x09] @ ''b.com'' @ [CHR 0x09] @ ''Bar'')]\<rparr>)"
    unfolding rows by simp
  show ?thesis
    by (rule trans [OF C4_report_drops_bibliography_titles [OF h] rhs])
qed

section \<open>Hit counts\<close>

text \<open>
  Every entry of a follow-up answer adds one to the count of its key.  When no answer lists
  a key twice, a title adds at most one to any count, and a count stays within the number
  of titles.
\<close>

lemma bump_cases:
  assumes "x \<in> set (bump k p acc)"
  shows "x \<in> set acc
         \<or> (\<exists>k' c p0. (k', c, p0) \<in> set acc \<and> key_eq k' k \<and> x = (k', Suc c, p))
         \<or> x = (k, 1, p)"
  using assms
proof (induction acc)
  case Nil
  then show ?case by simp
next
  case (Cons a acc)
  obtain ka ca pa where a: "a = (ka, ca, pa)" by (cases a)
  show ?case
  proof (cases "key_eq ka k")
    case True
    with Cons.prems a have "x = (ka, Suc ca, p) \<or> x \<in> set acc" by simp
    with True a show ?thesis by auto
  next
    case False
    with Cons.prems a have "x = a \<or> x \<in> set (bump k p acc)" by simp
    then show ?thesis
    proof
      assume "x = a" then show ?thesis by simp
    next
      assume "x \<in> set (bump k p acc)"
      from Cons.IH [OF this] show ?thesis by auto
    qed
  qed
qed

lemma add_results_bound:
  assumes "add_results env rs acc = Inr acc'"
    and "distinct (link_keys env rs)"
    and "\<forall>(k, c, p) \<in> set acc. c \<le> (if dict_key k \<in> set (link_keys env rs) then n else Suc n)"
  shows "\<forall>(k, c, p) \<in> set acc'. c \<le> Suc n"
  using assms
proof (induction rs arbitrary: acc)
  case Nil
  then show ?case by auto
next
  case (Cons r rs)
  from Cons.prems(1) obtain k0 where k0: "paper_link env r = Inr k0"
    and rest: "add_results env rs (bump k0 r acc) = Inr acc'"
    by (auto split: sum.splits if_splits)
  from Cons.prems(2) k0 have fresh: "dict_key k0 \<notin> set (link_keys env rs)"
    and dist: "distinct (link_keys env rs)"
    by simp_all
  have "\<forall>(k, c, p) \<in> set (bump k0 r acc).
          c \<le> (if dict_key k \<in> set (link_keys env rs) then n else Suc n)"
  proof (clarify)
    fix k c p assume "(k, c, p) \<in> set (bump k0 r acc)"
    from bump_cases [OF this]
    consider (old) "(k, c, p) \<in> set acc"
      | (hit) c0 p0 where "(k, c0, p0) \<in> set acc" "key_eq k k0" "c = Suc c0"
      | (new) "(k, c, p) = (k0, 1, r)"
      by auto
    then show "c \<le> (if dict_key k \<in> set (link_keys env rs) then n else Suc n)"
    proof cases
      case old
      with Cons.prems(3) k0 show ?thesis by (auto split: if_splits)
    next
      case hit
      from hit(2) have same: "dict_key k = dict_key k0" by (simp add: key_eq_def)
      with Cons.prems(3) hit(1) k0 have "c0 \<le> n" by fastforce
      with hit(3) same fresh show ?thesis by simp
    next
      case new
      with fresh show ?thesis by simp
    qed
  qed
  with Cons.IH [OF rest dist] show ?case .
qed

lemma add_citers_bound:
  assumes "add_citers env d acc = Inr acc'"
    and "no_repeated_citer env d"
    and "\<forall>(k, c, p) \<in> set acc. c \<le> n"
  shows "\<forall>(k, c, p) \<in> set acc'. c \<le> Suc n"
proof -
  from assms(1) obtain rs where rs: "cite_entries d = Inr rs" "add_results env rs acc = Inr acc'"
    by (auto simp: add_citers_def and_then_def split: sum.splits)
  with assms(2) have "distinct (link_keys env rs)"
    by (simp add: no_repeated_citer_def)
  moreover from assms(3)
  have "\<forall>(k, c, p) \<in> set acc. c \<le> (if dict_key k \<in> set (link_keys env rs) then n else Suc n)"
    by auto
  ultimately show ?thesis using rs(2) by (rule add_results_bound [rotated])
qed

lemma title_step_bound:
  assumes "title_step env title acc s = (Inr acc', s')"
    and "answers_without_repeats env"
    and "\<forall>(k, c, p) \<in> set acc. c \<le> n"
  shows "\<forall>(k, c, p) \<in> set acc'. c \<le> Suc n"
proof -
  obtain r w1 where f1: "urlopen_json env (world s) (search_url env title) = (r, w1)"
    by (cases "urlopen_json env (world s) (search_url env title)")
  let ?s1 = "\<lparr>world = w1, trace = trace s @ [Request (search_url env title)]\<rparr>"
  from assms(1) f1 obtain res where res: "r = Inr res"
    by (auto simp: title_step_def fetch_def split: sum.splits)
  from assms(1) f1 res consider (skip) "acc' = acc"
    | (follow) link w2 d where "urlopen_json env w1 link = (Inr d, w2)"
        "add_citers env d acc = Inr acc'"
    by (auto simp: title_step_def fetch_def py_print_def split: sum.splits option.splits prod.splits)
  then show ?thesis
  proof cases
    case skip
    with assms(3) show ?thesis by auto
  next
    case follow
    from assms(2) follow(1) have "no_repeated_citer env d"
      unfolding answers_without_repeats_def by blast
    with follow(2) show ?thesis using assms(3) by (rule add_citers_bound)
  qed
qed

lemma titles_loop_bound:
  assumes "titles_loop env titles acc s = (Inr acc', s')"
    and "answers_without_repeats env"
    and "\<forall>(k, c, p) \<in> set acc. c \<le> n"
  shows "\<forall>(k, c, p) \<in> set acc'. c \<le> n + length titles"
  using assms
proof (induction titles arbitrary: acc s n)
  case Nil
  then show ?case by auto
next
  case (Cons t ts)
  from Cons.prems(1) obtain acc1 s1 where
    step: "title_step env t acc s = (Inr acc1, s1)" and
    rest: "titles_loop env ts acc1 s1 = (Inr acc', s')"
    by (auto split: prod.splits sum.splits)
  from step Cons.prems(2,3) have "\<forall>(k, c, p) \<in> set acc1. c \<le> Suc n"
    by (rule title_step_bound)
  from Cons.IH [OF rest Cons.prems(2) this] show ?case by simp
qed

lemma hit_count_bound:
  assumes "answers_without_repeats env"
    and "find_citers_from_titles env titles s = (Inr result, s')"
    and "(link, cnt, paper) \<in> set result"
  shows "cnt \<le> length titles"
proof -
  from assms(2) obtain acc where
    loop: "titles_loop env (take 100000 titles) [] s = (Inr acc, s')" and r: "rank acc = Inr result"
    by (auto simp: find_citers_from_titles_def split: prod.splits sum.splits)
  have "\<forall>(k, c, p) \<in> set acc. c \<le> 0 + length (take 100000 titles)"
    using loop assms(1) by (rule titles_loop_bound) simp
  moreover from r have "set result = set acc"
    by (auto dest: rank_Inr)
  ultimately show ?thesis using assms(3) by fastforce
qed

lemma answers_without_repeats_example:
  "answers_without_repeats (canned_env [(search_T, first_page ''l'')])"
  by (simp add: answers_without_repeats_def canned_env_def no_repeated_citer_def first_page_def
        cite_entries_def py_contains_def py_getitem_def py_iter_def and_then_def paper_link_def
        py_get_def dict_key_def split: if_splits)

text \<open>
  C2.  The stored hit count should never exceed the number of input titles.  It does when an
  answer lists the same link twice: with the one title \<^verbatim>\<open>T\<close>, whose follow-up answer
  lists two papers under the link of their common volume, the link is stored with the hit
  count 2.
\<close>

theorem C2_hit_count_exceeds_titles:
  "fst (find_citers_from_titles (canned_env shared_link_pages) [''T''] \<lparr>world = 0, trace = []\<rparr>)
   = Inr [(JStr ''https://example.org/proceedings.pdf'', 2,
           JObj [(''title'', JStr ''Paper B''), (''link'', JStr ''https://example.org/proceedings.pdf'')])]
   \<and> length [''T''] = 1"
proof -
  let ?l = "''https://serpapi.com/search.json?cites=1&hl=en''"
  let ?l' = "''https://serpapi.com/search.json?cites=1&hl=en&api_key=KEY''"
  let ?env = "canned_env shared_link_pages"
  let ?s = "\<lparr>world = 0 :: nat, trace = []\<rparr>"
  let ?page = "citing_page
         [JObj [(''title'', JStr ''Paper A''), (''link'', JStr ''https://example.org/proceedings.pdf'')],
          JObj [(''title'', JStr ''Paper B''), (''link'', JStr ''https://example.org/proceedings.pdf'')]]"
  let ?entry = "(JStr ''https://example.org/proceedings.pdf'', 2 :: nat,
           JObj [(''title'', JStr ''Paper B''), (''link'', JStr ''https://example.org/proceedings.pdf'')])"
  have h1: "urlopen_json ?env (world ?s) (search_url ?env ''T'') = (Inr (first_page ?l), 1)"
    by (simp add: search_url_canned) (simp add: canned_env_def shared_link_pages_def)
  have h3: "rewrite_link ?env (JObj [(''total'', JInt 2), (''serpapi_scholar_link'', JStr ?l)]) = Inr ?l'"
    by (simp add: rewrite_link_def py_getitem_def and_then_def canned_env_def)
  have h4: "urlopen_json ?env 1 ?l' = (Inr ?page, 2)"
    by (simp add: canned_env_def shared_link_pages_def search_T_def)
  have add: "add_citers ?env ?page [] = Inr [?entry]"
    by (simp add: citing_page_def add_citers_def cite_entries_def py_contains_def py_getitem_def
          py_iter_def and_then_def paper_link_def hashable_def key_eq_def dict_key_def)
  have step: "fst (title_step ?env ''T'' [] ?s) = Inr [?entry]"
    by (simp add: title_step_follow [OF h1 first_cited_by_first_page h3 h4] add)
  have rank1: "rank [?entry] = Inr [?entry]"
    by (simp add: rank_def citer_key_def total_citations_def get_cited_by_def py_get_def and_then_def
          truthy_def py_number_def)
  obtain s1 where "title_step ?env ''T'' [] ?s = (Inr [?entry], s1)"
    using step by (cases "title_step ?env ''T'' [] ?s") simp
  then have "fst (find_citers_from_titles ?env [''T''] ?s) = Inr [?entry]"
    by (simp add: find_citers_from_titles_def rank1)
  then show ?thesis by simp
qed

end
